theory Spec2Isabelle
  imports Main "HOL-Library.Sublist"
begin

section \<open>xpath\_converter.py: offsets of an XPath match in the flattened text\<close>

text \<open>
  The module has one function, \<^verbatim>\<open>xpath_to_offsets(html_string, xpath, substring=None)\<close>.
  It calls the lxml library four times (\<^verbatim>\<open>html.fromstring\<close>, \<^verbatim>\<open>doc.xpath\<close>, \<^verbatim>\<open>str\<close> of the
  first match, \<^verbatim>\<open>doc.itertext\<close>); everything else is its own code: the loop that builds
  \<^verbatim>\<open>flat_text\<close> and the dictionary \<^verbatim>\<open>offsets\<close>, the lookup, and the optional narrowing
  with \<^verbatim>\<open>str.find\<close>.

  Python strings are modelled as \<^typ>\<open>string\<close>, one \<^typ>\<open>char\<close> standing for one code
  point, so that \<^term>\<open>length\<close> is Python's \<^verbatim>\<open>len\<close>. Python integers are \<^typ>\<open>int\<close>.
\<close>

subsection \<open>Errors\<close>

text \<open>
  The function raises \<^verbatim>\<open>ValueError\<close> with a message at lines 7 and 25, and the dictionary
  lookup at line 20 raises \<^verbatim>\<open>KeyError\<close> carrying the missing key.
\<close>

datatype error = ValueError string | KeyError string

definition no_node_msg :: "string \<Rightarrow> string" where
  "no_node_msg xpath = ''No node found for XPath: '' @ xpath"

definition substring_msg :: "string \<Rightarrow> string \<Rightarrow> string" where
  "substring_msg substring node_text =
     ''Substring '' @ [CHR 0x27] @ substring @ [CHR 0x27] @
     '' not found in node '' @ [CHR 0x27] @ node_text @ [CHR 0x27]"

subsection \<open>The library, as a parameter\<close>

text \<open>
  lxml is not part of the module. Its four operations are the fields of a record that the
  model of the function takes as an argument: the parser, the XPath evaluator (its result
  read as the list of matches), Python's \<^verbatim>\<open>str\<close> on a match, and the document-order
  iteration over the text fragments.
\<close>

record ('doc, 'node) lxml =
  html_fromstring :: "string \<Rightarrow> 'doc"
  doc_xpath :: "'doc \<Rightarrow> string \<Rightarrow> 'node list"
  node_str :: "'node \<Rightarrow> string"
  doc_itertext :: "'doc \<Rightarrow> string list"

subsection \<open>The traversal loop (lines 10 to 18)\<close>

record walk =
  flat_text :: string
  offsets :: "string \<rightharpoonup> int \<times> int"
  pos :: int

definition walk_init :: walk where
  "walk_init = \<lparr>flat_text = [], offsets = Map.empty, pos = 0\<rparr>"

definition loop_body :: "walk \<Rightarrow> string \<Rightarrow> walk" where
  "loop_body w elem =
     (let start = pos w;
          end' = pos w + int (length elem)
      in \<lparr>flat_text = flat_text w @ elem,
          offsets = (offsets w)(elem \<mapsto> (start, end')),
          pos = end'\<rparr>)"

fun for_itertext :: "walk \<Rightarrow> string list \<Rightarrow> walk" where
  "for_itertext w [] = w"
| "for_itertext w (elem # rest) = for_itertext (loop_body w elem) rest"

subsection \<open>Python's \<^verbatim>\<open>str.find\<close>\<close>

text \<open>
  \<^verbatim>\<open>s.find(sub)\<close> is the lowest index at which \<^verbatim>\<open>sub\<close> starts in \<^verbatim>\<open>s\<close>, or \<^verbatim>\<open>-1\<close>;
  the empty string is found at index 0.
\<close>

fun find_from :: "string \<Rightarrow> string \<Rightarrow> int \<Rightarrow> int" where
  "find_from [] sub i = (if sub = [] then i else - 1)"
| "find_from (c # cs) sub i =
     (if prefix sub (c # cs) then i else find_from cs sub (i + 1))"

definition str_find :: "string \<Rightarrow> string \<Rightarrow> int" where
  "str_find s sub = find_from s sub 0"

subsection \<open>The function\<close>

definition xpath_to_offsets ::
  "('doc, 'node) lxml \<Rightarrow> string \<Rightarrow> string \<Rightarrow> string option \<Rightarrow> error + int \<times> int" where
  "xpath_to_offsets lib html_string xpath substring =
     (let doc = html_fromstring lib html_string;
          nodes = doc_xpath lib doc xpath
      in case nodes of
           [] \<Rightarrow> Inl (ValueError (no_node_msg xpath))
         | node # _ \<Rightarrow>
             (let node_text = node_str lib node;
                  w = for_itertext walk_init (doc_itertext lib doc)
              in case offsets w node_text of
                   None \<Rightarrow> Inl (KeyError node_text)
                 | Some (global_start, global_end) \<Rightarrow>
                     (case substring of
                        None \<Rightarrow> Inr (global_start, global_end)
                      | Some sub \<Rightarrow>
                          if sub = [] then Inr (global_start, global_end)
                          else
                            (let local_index = str_find node_text sub
                             in if local_index = - 1
                                then Inl (ValueError (substring_msg sub node_text))
                                else
                                  (let start_offset = global_start + local_index;
                                       end_offset = start_offset + int (length sub)
                                   in Inr (start_offset, end_offset))))))"

subsection \<open>What the library returned, and a slice of a string\<close>

text \<open>
  Three readings of a call, used to state the properties: the stringified matches, the
  fragments that the iteration yields, and the state of the loop after the last fragment.
\<close>

definition matches :: "('doc, 'node) lxml \<Rightarrow> string \<Rightarrow> string \<Rightarrow> string list" where
  "matches lib html_string xpath =
     map (node_str lib) (doc_xpath lib (html_fromstring lib html_string) xpath)"

definition fragments :: "('doc, 'node) lxml \<Rightarrow> string \<Rightarrow> string list" where
  "fragments lib html_string = doc_itertext lib (html_fromstring lib html_string)"

definition traversal :: "('doc, 'node) lxml \<Rightarrow> string \<Rightarrow> walk" where
  "traversal lib html_string = for_itertext walk_init (fragments lib html_string)"



text \<open>
  A library with fixed answers, to run the function on concrete inputs: every document
  has the given fragments, an XPath expression has the matches the table lists for it
  (none when it is not in the table), and a match is its own string.
\<close>

definition fixed_lxml :: "string list \<Rightarrow> (string \<times> string list) list \<Rightarrow> (unit, string) lxml" where
  "fixed_lxml texts table =
     \<lparr>html_fromstring = (\<lambda>_. ()),
      doc_xpath = (\<lambda>_ xpath. case map_of table xpath of None \<Rightarrow> [] | Some ms \<Rightarrow> ms),
      node_str = (\<lambda>node. node),
      doc_itertext = (\<lambda>_. texts)\<rparr>"

section \<open>The traversal\<close>

lemma loop_body_fields:
  "flat_text (loop_body w elem) = flat_text w @ elem"
  "pos (loop_body w elem) = pos w + int (length elem)"
  "offsets (loop_body w elem) = (offsets w)(elem \<mapsto> (pos w, pos w + int (length elem)))"
  by (simp_all add: loop_body_def Let_def)

lemma flat_text_for_itertext:
  "flat_text (for_itertext w texts) = flat_text w @ concat texts"
  by (induction texts arbitrary: w) (simp_all add: loop_body_fields)

lemma pos_for_itertext:
  "pos (for_itertext w texts) = pos w + int (length (concat texts))"
  by (induction texts arbitrary: w) (simp_all add: loop_body_fields)

lemma offsets_for_itertext_other:
  "t \<notin> set texts \<Longrightarrow> offsets (for_itertext w texts) t = offsets w t"
  by (induction texts arbitrary: w) (simp_all add: loop_body_fields)

lemma for_itertext_append:
  "for_itertext w (xs @ ys) = for_itertext (for_itertext w xs) ys"
  by (induction xs arbitrary: w) simp_all

lemma offsets_for_itertext_last:
  assumes "t \<notin> set ys"
  shows "offsets (for_itertext w (xs @ t # ys)) t =
           Some (pos w + int (length (concat xs)),
                 pos w + int (length (concat xs)) + int (length t))"
proof -
  have "offsets (for_itertext w (xs @ t # ys)) t =
          offsets (loop_body (for_itertext w xs) t) t"
    using assms by (simp add: for_itertext_append offsets_for_itertext_other)
  then show ?thesis
    by (simp add: loop_body_fields pos_for_itertext)
qed

lemma offsets_walk_init_span:
  assumes "offsets (for_itertext walk_init texts) t = Some (a, b)"
  shows "\<exists>xs ys. texts = xs @ t # ys \<and> t \<notin> set ys \<and>
           a = int (length (concat xs)) \<and> b = a + int (length t)"
proof -
  have "t \<in> set texts"
  proof (rule ccontr)
    assume "t \<notin> set texts"
    then have "offsets (for_itertext walk_init texts) t = offsets walk_init t"
      by (rule offsets_for_itertext_other)
    with assms show False by (simp add: walk_init_def)
  qed
  then obtain xs ys where split: "texts = xs @ t # ys" "t \<notin> set ys"
    by (meson split_list_last)
  have "offsets (for_itertext walk_init texts) t =
          Some (int (length (concat xs)), int (length (concat xs)) + int (length t))"
    using offsets_for_itertext_last [OF split(2), of walk_init xs]
    by (simp add: split(1) walk_init_def)
  with assms have "a = int (length (concat xs))" "b = a + int (length t)"
    by simp_all
  with split show ?thesis by blast
qed


section \<open>The search for the substring\<close>

lemma find_from_cases:
  "find_from s sub i = - 1 \<or>
     (\<exists>k. k \<le> length s \<and> find_from s sub i = i + int k \<and> prefix sub (drop k s))"
proof (induction s arbitrary: i)
  case Nil
  then show ?case by simp
next
  case (Cons c cs)
  show ?case
  proof (cases "prefix sub (c # cs)")
    case True
    then have "find_from (c # cs) sub i = i + int 0 \<and> prefix sub (drop 0 (c # cs))"
      by simp
    then show ?thesis by blast
  next
    case False
    from Cons.IH [of "i + 1"] show ?thesis
    proof
      assume "find_from cs sub (i + 1) = - 1"
      with False show ?thesis by simp
    next
      assume "\<exists>k. k \<le> length cs \<and> find_from cs sub (i + 1) = i + 1 + int k \<and>
                prefix sub (drop k cs)"
      then obtain k where k: "k \<le> length cs" "find_from cs sub (i + 1) = i + 1 + int k"
        "prefix sub (drop k cs)"
        by blast
      with False have "Suc k \<le> length (c # cs) \<and>
          find_from (c # cs) sub i = i + int (Suc k) \<and> prefix sub (drop (Suc k) (c # cs))"
        by simp
      then show ?thesis by blast
    qed
  qed
qed

lemma find_from_absent:
  "0 \<le> i \<Longrightarrow> find_from s sub i = - 1 \<Longrightarrow> \<not> sublist sub s"
proof (induction s arbitrary: i)
  case Nil
  then show ?case by (auto split: if_splits)
next
  case (Cons c cs)
  from Cons.prems have np: "\<not> prefix sub (c # cs)"
    by (auto split: if_splits)
  with Cons.prems have "find_from cs sub (i + 1) = - 1"
    by simp
  with Cons.IH [of "i + 1"] Cons.prems(1) have "\<not> sublist sub cs"
    by simp
  with np show ?case
    by (simp add: sublist_Cons_right)
qed

lemma str_find_absent: "(str_find s sub = - 1) = (\<not> sublist sub s)"
proof
  assume "str_find s sub = - 1"
  then show "\<not> sublist sub s"
    using find_from_absent [of 0 s sub] by (simp add: str_find_def)
next
  assume ns: "\<not> sublist sub s"
  show "str_find s sub = - 1"
  proof (rule ccontr)
    assume "str_find s sub \<noteq> - 1"
    with find_from_cases [of s sub 0] obtain k where "prefix sub (drop k s)"
      by (auto simp: str_find_def)
    then obtain zs where "drop k s = sub @ zs"
      by (auto simp: prefix_def)
    then have "s = take k s @ sub @ zs"
      by (metis append_take_drop_id)
    then have "sublist sub s"
      by (metis sublist_appendI)
    with ns show False by simp
  qed
qed

lemma str_find_found:
  assumes "str_find s sub \<noteq> - 1"
  shows "\<exists>k. str_find s sub = int k \<and> k \<le> length s \<and> prefix sub (drop k s)"
  using assms find_from_cases [of s sub 0] by (auto simp: str_find_def)

section \<open>The four ways a call ends\<close>

lemma xpath_to_offsets_no_node:
  "matches lib h x = [] \<Longrightarrow> xpath_to_offsets lib h x s = Inl (ValueError (no_node_msg x))"
  by (simp add: xpath_to_offsets_def matches_def Let_def)

lemma xpath_to_offsets_key_missing:
  assumes "matches lib h x = nt # rest" and "offsets (traversal lib h) nt = None"
  shows "xpath_to_offsets lib h x s = Inl (KeyError nt)"
  using assms
  by (auto simp: xpath_to_offsets_def matches_def traversal_def fragments_def Let_def
           split: list.splits)

lemma xpath_to_offsets_whole_node:
  assumes "matches lib h x = nt # rest" and "offsets (traversal lib h) nt = Some (gs, ge)"
    and "s = None \<or> s = Some []"
  shows "xpath_to_offsets lib h x s = Inr (gs, ge)"
  using assms
  by (auto simp: xpath_to_offsets_def matches_def traversal_def fragments_def Let_def
           split: list.splits)

lemma xpath_to_offsets_substring_missing:
  assumes "matches lib h x = nt # rest" and "offsets (traversal lib h) nt = Some (gs, ge)"
    and "sub \<noteq> []" and "\<not> sublist sub nt"
  shows "xpath_to_offsets lib h x (Some sub) = Inl (ValueError (substring_msg sub nt))"
  using assms
  by (auto simp: xpath_to_offsets_def matches_def traversal_def fragments_def Let_def
                 str_find_absent
           split: list.splits)

lemma xpath_to_offsets_substring_found:
  assumes "matches lib h x = nt # rest" and "offsets (traversal lib h) nt = Some (gs, ge)"
    and "sub \<noteq> []" and "sublist sub nt"
  shows "xpath_to_offsets lib h x (Some sub) =
           Inr (gs + str_find nt sub, gs + str_find nt sub + int (length sub))"
  using assms
  by (auto simp: xpath_to_offsets_def matches_def traversal_def fragments_def Let_def
                 str_find_absent
           split: list.splits)

lemma xpath_to_offsets_success:
  assumes "xpath_to_offsets lib h x s = Inr (a, b)"
  shows "\<exists>nt rest gs ge. matches lib h x = nt # rest \<and>
           offsets (traversal lib h) nt = Some (gs, ge) \<and>
           ((s = None \<or> s = Some []) \<and> a = gs \<and> b = ge \<or>
            (\<exists>sub. s = Some sub \<and> sub \<noteq> [] \<and> sublist sub nt \<and>
               a = gs + str_find nt sub \<and> b = a + int (length sub)))"
proof (cases "matches lib h x")
  case Nil
  with assms show ?thesis
    by (simp add: xpath_to_offsets_no_node)
next
  case (Cons nt rest)
  show ?thesis
  proof (cases "offsets (traversal lib h) nt")
    case None
    with Cons assms show ?thesis
      by (simp add: xpath_to_offsets_key_missing)
  next
    case (Some span)
    obtain gs ge where span: "span = (gs, ge)"
      by (cases span)
    note key = Some [unfolded span]
    show ?thesis
    proof (cases "s = None \<or> s = Some []")
      case True
      with assms xpath_to_offsets_whole_node [OF Cons key True] Cons key show ?thesis
        by simp
    next
      case False
      then obtain sub where sub: "s = Some sub" "sub \<noteq> []"
        by (cases s) auto
      show ?thesis
      proof (cases "sublist sub nt")
        case True
        with assms xpath_to_offsets_substring_found [OF Cons key sub(2) True] Cons key sub
        show ?thesis by simp
      next
        case False
        with assms xpath_to_offsets_substring_missing [OF Cons key sub(2) False] sub
        show ?thesis by simp
      qed
    qed
  qed
qed

section \<open>Properties of the traversal\<close>

text \<open>
  C7. While the loop runs, the recorded spans are contiguous and do not overlap. Take
  any fragment \<open>e\<close> with the fragments \<open>xs\<close> visited before it and \<open>ys\<close> after it. Right
  after the iteration for \<open>e\<close>, the entry recorded for \<open>e\<close> starts at the sum of the
  lengths of \<open>xs\<close> and ends at that start plus the length of \<open>e\<close>, and \<open>pos\<close> is that
  end, which is where the next fragment will start. The loop over the whole list passes
  through that state. At the end the flattened text is the concatenation of all
  fragments in order, and \<open>pos\<close> is its length: nothing is counted twice, nothing is
  skipped.
\<close>

theorem traversal_spans_contiguous:
  "offsets (for_itertext walk_init (xs @ [e])) e =
     Some (int (sum_list (map length xs)), int (sum_list (map length xs)) + int (length e))
   \<and> pos (for_itertext walk_init (xs @ [e])) = int (sum_list (map length xs)) + int (length e)
   \<and> flat_text (for_itertext walk_init (xs @ [e])) = concat xs @ e
   \<and> for_itertext walk_init (xs @ e # ys) =
       for_itertext (for_itertext walk_init (xs @ [e])) ys
   \<and> flat_text (for_itertext walk_init (xs @ e # ys)) = concat (xs @ e # ys)
   \<and> pos (for_itertext walk_init (xs @ e # ys)) =
       int (length (flat_text (for_itertext walk_init (xs @ e # ys))))"
proof -
  have span: "offsets (for_itertext walk_init (xs @ [e])) e =
     Some (int (sum_list (map length xs)), int (sum_list (map length xs)) + int (length e))"
    using offsets_for_itertext_last [of e "[]" walk_init xs]
    by (simp add: walk_init_def length_concat)
  have p: "pos (for_itertext walk_init (xs @ [e])) =
      int (sum_list (map length xs)) + int (length e)"
    by (simp add: pos_for_itertext walk_init_def length_concat)
  have f: "flat_text (for_itertext walk_init (xs @ [e])) = concat xs @ e"
    by (simp add: flat_text_for_itertext walk_init_def)
  have through: "for_itertext walk_init (xs @ e # ys) =
      for_itertext (for_itertext walk_init (xs @ [e])) ys"
    using for_itertext_append [of walk_init "xs @ [e]" ys] by simp
  have whole: "flat_text (for_itertext walk_init (xs @ e # ys)) = concat (xs @ e # ys)"
    by (simp add: flat_text_for_itertext walk_init_def)
  have len: "pos (for_itertext walk_init (xs @ e # ys)) =
      int (length (flat_text (for_itertext walk_init (xs @ e # ys))))"
    by (simp add: pos_for_itertext flat_text_for_itertext walk_init_def)
  from span p f through whole len show ?thesis
    by blast
qed

section \<open>Properties of the returned span\<close>

text \<open>
  C8. Every call that succeeds returns a pair \<open>(start, end)\<close> with
  \<open>0 \<le> start \<le> end\<close>.
\<close>

theorem span_ordered:
  assumes "xpath_to_offsets lib html_string xpath substring = Inr (start, end')"
  shows "0 \<le> start \<and> start \<le> end'"
proof -
  from xpath_to_offsets_success [OF assms] obtain nt rest gs ge where
    m: "matches lib html_string xpath = nt # rest" and
    key: "offsets (traversal lib html_string) nt = Some (gs, ge)" and
    alt: "(substring = None \<or> substring = Some []) \<and> start = gs \<and> end' = ge \<or>
          (\<exists>sub. substring = Some sub \<and> sub \<noteq> [] \<and> sublist sub nt \<and>
             start = gs + str_find nt sub \<and> end' = start + int (length sub))"
    by blast
  from offsets_walk_init_span [OF key [unfolded traversal_def]]
  have gs: "0 \<le> gs" "ge = gs + int (length nt)"
    by auto
  from alt show ?thesis
  proof
    assume "(substring = None \<or> substring = Some []) \<and> start = gs \<and> end' = ge"
    with gs show ?thesis by simp
  next
    assume "\<exists>sub. substring = Some sub \<and> sub \<noteq> [] \<and> sublist sub nt \<and>
             start = gs + str_find nt sub \<and> end' = start + int (length sub)"
    then obtain sub where sub: "sublist sub nt" "start = gs + str_find nt sub"
      "end' = start + int (length sub)"
      by blast
    from sub(1) have "str_find nt sub \<noteq> - 1"
      by (simp add: str_find_absent)
    from str_find_found [OF this] have "0 \<le> str_find nt sub"
      by auto
    with gs sub show ?thesis by simp
  qed
qed

theorem span_ordered_witness:
  "xpath_to_offsets (fixed_lxml [''Hello World''] [(''//p'', [''Hello World''])])
     ''<div><p>Hello World</p></div>'' ''//p'' (Some ''World'') = Inr (6, 11)
   \<and> (0::int) \<le> 6 \<and> (6::int) \<le> 11"
proof -
  have run: "xpath_to_offsets (fixed_lxml [''Hello World''] [(''//p'', [''Hello World''])])
     ''<div><p>Hello World</p></div>'' ''//p'' (Some ''World'') = Inr (6, 11)"
    by code_simp
  from span_ordered [OF run] run show ?thesis
    by simp
qed

text \<open>
  C6. When no substring is passed and the call succeeds, the length of the returned span
  is the length of \<open>node_text\<close>, the string of the first match.
\<close>

theorem whole_node_span_length:
  assumes "xpath_to_offsets lib html_string xpath None = Inr (start, end')"
  shows "end' - start = int (length (hd (matches lib html_string xpath)))"
proof -
  from xpath_to_offsets_success [OF assms] obtain nt rest gs ge where
    m: "matches lib html_string xpath = nt # rest" and
    key: "offsets (traversal lib html_string) nt = Some (gs, ge)" and
    out: "start = gs" "end' = ge"
    by auto
  from offsets_walk_init_span [OF key [unfolded traversal_def]]
  have "ge = gs + int (length nt)"
    by auto
  with m out show ?thesis by simp
qed

theorem whole_node_span_length_witness:
  "xpath_to_offsets (fixed_lxml [''Hello'', ''World''] [(''//p[2]'', [''World''])])
     ''<div><p>Hello</p><p>World</p></div>'' ''//p[2]'' None = Inr (5, 10)
   \<and> (10::int) - 5 =
       int (length (hd (matches (fixed_lxml [''Hello'', ''World''] [(''//p[2]'', [''World''])])
         ''<div><p>Hello</p><p>World</p></div>'' ''//p[2]'')))"
proof -
  have run: "xpath_to_offsets (fixed_lxml [''Hello'', ''World''] [(''//p[2]'', [''World''])])
     ''<div><p>Hello</p><p>World</p></div>'' ''//p[2]'' None = Inr (5, 10)"
    by code_simp
  from whole_node_span_length [OF run] run show ?thesis
    by simp
qed

section \<open>The substring argument\<close>

text \<open>
  C2, as stated, asks that the span has the length of the substring for every substring
  that is passed, the empty string included. The guard at line 22 tests the truth value
  of \<open>substring\<close>, and the empty string is false in Python: with fragments \<open>Hello\<close>,
  \<open>World\<close>, a first match that reads \<open>Hello\<close> and the empty substring (which occurs in
  every text), the call returns \<open>(0, 5)\<close>, of length 5 and not 0.
\<close>

theorem substring_span_length_counterexample:
  "xpath_to_offsets (fixed_lxml [''Hello'', ''World''] [(''//p[1]'', [''Hello''])])
     ''<div><p>Hello</p><p>World</p></div>'' ''//p[1]'' (Some []) = Inr (0, 5)
   \<and> sublist ([] :: string) ''Hello''
   \<and> (5::int) - 0 \<noteq> int (length ([] :: string))"
proof -
  have "xpath_to_offsets (fixed_lxml [''Hello'', ''World''] [(''//p[1]'', [''Hello''])])
     ''<div><p>Hello</p><p>World</p></div>'' ''//p[1]'' (Some []) = Inr (0, 5)"
    by code_simp
  then show ?thesis by simp
qed

text \<open>
  C2, amended. For every call in which a substring is passed that is not the empty
  string, a returned span \<open>(start, end)\<close> satisfies
  \<open>end - start = length substring\<close>. (A call that returns has found the substring in
  the text of the matched node.)
\<close>

theorem substring_span_length:
  assumes "sub \<noteq> []"
    and "xpath_to_offsets lib html_string xpath (Some sub) = Inr (start, end')"
  shows "end' - start = int (length sub)"
  using xpath_to_offsets_success [OF assms(2)] assms(1) by auto

theorem substring_span_length_witness:
  "''World'' \<noteq> []
   \<and> xpath_to_offsets (fixed_lxml [''Hello World''] [(''//p'', [''Hello World''])])
       ''<div><p>Hello World</p></div>'' ''//p'' (Some ''World'') = Inr (6, 11)
   \<and> (11::int) - 6 = int (length ''World'')"
proof -
  have ne: "''World'' \<noteq> []"
    by simp
  have run: "xpath_to_offsets (fixed_lxml [''Hello World''] [(''//p'', [''Hello World''])])
       ''<div><p>Hello World</p></div>'' ''//p'' (Some ''World'') = Inr (6, 11)"
    by code_simp
  from substring_span_length [OF ne run] ne run show ?thesis
    by simp
qed

lemma no_node_msg_not_substring_msg:
  "no_node_msg x \<noteq> substring_msg sub nt" "substring_msg sub nt \<noteq> no_node_msg x"
  by (simp_all add: no_node_msg_def substring_msg_def)

text \<open>
  C10. The empty string as substring is treated as no substring at all: the call has the
  outcome of the call without a substring, that outcome is never the error of line 25,
  and when it is a span it is the entry of the index for the text of the matched node,
  \<open>(global_start, global_end)\<close>.
\<close>

theorem empty_substring_as_absent:
  "xpath_to_offsets lib html_string xpath (Some []) = xpath_to_offsets lib html_string xpath None
   \<and> xpath_to_offsets lib html_string xpath (Some []) \<noteq>
       Inl (ValueError (substring_msg [] node_text))
   \<and> (xpath_to_offsets lib html_string xpath (Some []) = Inr span \<longrightarrow>
        offsets (traversal lib html_string) (hd (matches lib html_string xpath)) = Some span)"
proof -
  have same: "xpath_to_offsets lib html_string xpath (Some []) =
      xpath_to_offsets lib html_string xpath None"
    by (simp add: xpath_to_offsets_def Let_def split: list.splits option.splits)
  have not_missing: "xpath_to_offsets lib html_string xpath (Some []) \<noteq>
       Inl (ValueError (substring_msg [] node_text))"
    by (simp add: xpath_to_offsets_def Let_def no_node_msg_not_substring_msg
          split: list.splits option.splits)
  have whole: "offsets (traversal lib html_string) (hd (matches lib html_string xpath)) = Some span"
    if "xpath_to_offsets lib html_string xpath (Some []) = Inr span"
  proof -
    obtain a b where span: "span = (a, b)"
      by (cases span)
    from xpath_to_offsets_success [OF that [unfolded span]] span show ?thesis
      by auto
  qed
  from same not_missing whole show ?thesis
    by blast
qed

theorem empty_substring_as_absent_witness:
  "xpath_to_offsets (fixed_lxml [''Hello'', ''World''] [(''//p[2]'', [''World''])])
     ''<div><p>Hello</p><p>World</p></div>'' ''//p[2]'' (Some []) = Inr (5, 10)
   \<and> xpath_to_offsets (fixed_lxml [''Hello'', ''World''] [(''//p[2]'', [''World''])])
     ''<div><p>Hello</p><p>World</p></div>'' ''//p[2]'' None = Inr (5, 10)
   \<and> offsets (traversal (fixed_lxml [''Hello'', ''World''] [(''//p[2]'', [''World''])])
         ''<div><p>Hello</p><p>World</p></div>'')
       (hd (matches (fixed_lxml [''Hello'', ''World''] [(''//p[2]'', [''World''])])
         ''<div><p>Hello</p><p>World</p></div>'' ''//p[2]'')) = Some (5, 10)"
proof -
  have run: "xpath_to_offsets (fixed_lxml [''Hello'', ''World''] [(''//p[2]'', [''World''])])
     ''<div><p>Hello</p><p>World</p></div>'' ''//p[2]'' (Some []) = Inr (5, 10)"
    by code_simp
  from empty_substring_as_absent
    [of "fixed_lxml [''Hello'', ''World''] [(''//p[2]'', [''World''])]"
        "''<div><p>Hello</p><p>World</p></div>''" "''//p[2]''" "''World''" "(5, 10)"]
    run
  show ?thesis by simp
qed

section \<open>No state of its own\<close>




section \<open>The scenarios\<close>






section \<open>Slicing the flattened text\<close>








section \<open>Errors and their conditions\<close>









end
